theory Spec2Isabelle
  imports Complex_Main
begin

section \<open>JavaScript numbers\<close>

text \<open>
  The drawer computes with JavaScript numbers (binary64). The model keeps the three
  special values (\<open>NaN\<close> and the two infinities) and takes a finite number to be the real
  it stands for. Arithmetic overflows as binary64 does: the reals that round to a finite
  double lie strictly between \<open>-(2^1024 - 2^970)\<close> and \<open>2^1024 - 2^970\<close>, and an
  operation on two of them whose exact result lies outside gives an infinity. Within the
  range results are not rounded to the nearest double, and there is no negative zero, so
  a division of a non-zero finite number by zero takes the sign of the numerator. A real
  outside the range stands for no double; on such operands the operations stay exact.
\<close>

datatype jsnum = Fin real | PosInf | NegInf | NaN

definition overflow_threshold :: real where
  "overflow_threshold = 2 ^ 1024 - 2 ^ 970"

definition is_double :: "real \<Rightarrow> bool" where
  "is_double x = (- overflow_threshold < x \<and> x < overflow_threshold)"

definition to_number :: "real \<Rightarrow> jsnum" where
  "to_number r =
     (if overflow_threshold \<le> r then PosInf
      else if r \<le> - overflow_threshold then NegInf
      else Fin r)"

text \<open>The result of an operation on the finite operands \<open>x\<close> and \<open>y\<close> whose exact value
  is \<open>r\<close>.\<close>

definition finite_result :: "real \<Rightarrow> real \<Rightarrow> real \<Rightarrow> jsnum" where
  "finite_result x y r = (if is_double x \<and> is_double y then to_number r else Fin r)"

text \<open>The relational operators \<open><\<close>, \<open>>\<close>, \<open><=\<close>, \<open>>=\<close> and the strict
  (in)equality \<open>===\<close>, \<open>!==\<close> on numbers: every comparison with \<open>NaN\<close> is false, and
  \<open>NaN !== x\<close> is true for every \<open>x\<close>.\<close>

fun js_lt :: "jsnum \<Rightarrow> jsnum \<Rightarrow> bool" where
  "js_lt NaN _ = False"
| "js_lt _ NaN = False"
| "js_lt (Fin x) (Fin y) = (x < y)"
| "js_lt PosInf _ = False"
| "js_lt _ NegInf = False"
| "js_lt NegInf _ = True"
| "js_lt _ PosInf = True"

definition js_gt :: "jsnum \<Rightarrow> jsnum \<Rightarrow> bool" where
  "js_gt a b = js_lt b a"

definition js_seq :: "jsnum \<Rightarrow> jsnum \<Rightarrow> bool" where
  "js_seq a b = (a = b \<and> a \<noteq> NaN)"

definition js_sne :: "jsnum \<Rightarrow> jsnum \<Rightarrow> bool" where
  "js_sne a b = (\<not> js_seq a b)"

definition js_le :: "jsnum \<Rightarrow> jsnum \<Rightarrow> bool" where
  "js_le a b = (js_lt a b \<or> js_seq a b)"

definition js_ge :: "jsnum \<Rightarrow> jsnum \<Rightarrow> bool" where
  "js_ge a b = js_le b a"

text \<open>Arithmetic: \<open>+\<close>, unary and binary \<open>-\<close>, \<open>*\<close>, \<open>/\<close>.\<close>

fun js_add :: "jsnum \<Rightarrow> jsnum \<Rightarrow> jsnum" where
  "js_add NaN _ = NaN"
| "js_add _ NaN = NaN"
| "js_add (Fin x) (Fin y) = finite_result x y (x + y)"
| "js_add PosInf NegInf = NaN"
| "js_add NegInf PosInf = NaN"
| "js_add PosInf _ = PosInf"
| "js_add _ PosInf = PosInf"
| "js_add NegInf _ = NegInf"
| "js_add _ NegInf = NegInf"

fun js_neg :: "jsnum \<Rightarrow> jsnum" where
  "js_neg (Fin x) = Fin (- x)"
| "js_neg PosInf = NegInf"
| "js_neg NegInf = PosInf"
| "js_neg NaN = NaN"

definition js_sub :: "jsnum \<Rightarrow> jsnum \<Rightarrow> jsnum" where
  "js_sub a b = js_add a (js_neg b)"

text \<open>The sign of a number that is not \<open>NaN\<close>: \<open>-1\<close>, \<open>0\<close> or \<open>1\<close>.\<close>

fun js_sign :: "jsnum \<Rightarrow> int" where
  "js_sign (Fin x) = (if x < 0 then - 1 else if x = 0 then 0 else 1)"
| "js_sign PosInf = 1"
| "js_sign NegInf = - 1"
| "js_sign NaN = 0"

definition inf_of_sign :: "int \<Rightarrow> jsnum" where
  "inf_of_sign s = (if s = 0 then NaN else if 0 < s then PosInf else NegInf)"

fun js_mul :: "jsnum \<Rightarrow> jsnum \<Rightarrow> jsnum" where
  "js_mul NaN _ = NaN"
| "js_mul _ NaN = NaN"
| "js_mul (Fin x) (Fin y) = finite_result x y (x * y)"
| "js_mul a b = inf_of_sign (js_sign a * js_sign b)"

fun js_div :: "jsnum \<Rightarrow> jsnum \<Rightarrow> jsnum" where
  "js_div NaN _ = NaN"
| "js_div _ NaN = NaN"
| "js_div (Fin x) (Fin y) =
     (if y = 0 then inf_of_sign (js_sign (Fin x)) else finite_result x y (x / y))"
| "js_div (Fin x) _ = Fin 0"
| "js_div a (Fin y) = inf_of_sign (js_sign a * (if y < 0 then - 1 else 1))"
| "js_div _ _ = NaN"

text \<open>\<open>Math.round\<close>: the nearest integer, a tie going up.\<close>

fun Math_round :: "jsnum \<Rightarrow> jsnum" where
  "Math_round (Fin x) = Fin (of_int \<lfloor>x + 1 / 2\<rfloor>)"
| "Math_round a = a"

text \<open>\<open>Math.min\<close> and \<open>Math.max\<close> of two numbers: \<open>NaN\<close> if either is.\<close>

definition Math_min :: "jsnum \<Rightarrow> jsnum \<Rightarrow> jsnum" where
  "Math_min a b = (if a = NaN \<or> b = NaN then NaN else if js_lt b a then b else a)"

definition Math_max :: "jsnum \<Rightarrow> jsnum \<Rightarrow> jsnum" where
  "Math_max a b = (if a = NaN \<or> b = NaN then NaN else if js_lt a b then b else a)"

section \<open>Errors\<close>

text \<open>The one exception the drawer's own code can raise: reading a property of
  \<open>undefined\<close>, or reducing an empty array without an initial value.\<close>

datatype js_error = TypeError

section \<open>The aggregator\<close>

record sample =
  time :: jsnum
  pitch :: jsnum

text \<open>\<open>avg\<close>: \<open>values.reduce(function(a,b) {return a+b;})\<close> has no initial value, so it
  starts from the first element and raises on an empty array.\<close>

definition avg :: "jsnum list \<Rightarrow> js_error + jsnum" where
  "avg vals =
     (case vals of
        [] \<Rightarrow> Inl TypeError
      | v # rest \<Rightarrow> Inr (js_div (foldl js_add v rest) (Fin (real (length vals)))))"

text \<open>The local variables of \<open>calculatePitches\<close> and the \<open>pitches\<close> object it fills.
  A property key is the string of the number used as index; distinct numbers have distinct
  strings (\<open>"-1"\<close>, \<open>"0"\<close>, \<open>"NaN"\<close>, \<open>"Infinity"\<close>), so the map is keyed by the number,
  with \<open>NaN\<close> one key like any other.\<close>

type_synonym pixel_pitch_map = "jsnum \<rightharpoonup> jsnum"

record agg =
  pitches_acc :: pixel_pitch_map
  pitchesForAverage :: "jsnum list"
  previousPosition :: jsnum
  maxPitch :: jsnum
  minPitch :: jsnum
  maxSegmentPitch :: jsnum
  minSegmentPitch :: jsnum

definition agg_init :: agg where
  "agg_init =
     \<lparr>pitches_acc = Map.empty, pitchesForAverage = [], previousPosition = Fin (- 1),
      maxPitch = Fin 0, minPitch = Fin 99999999999,
      maxSegmentPitch = Fin 0, minSegmentPitch = Fin 99999999999\<rparr>"

definition in_window :: "jsnum \<Rightarrow> jsnum \<Rightarrow> sample \<Rightarrow> bool" where
  "in_window tstart tend d = (js_ge (time d) tstart \<and> js_le (time d) tend)"

definition pitchPosition :: "jsnum \<Rightarrow> jsnum \<Rightarrow> jsnum \<Rightarrow> sample \<Rightarrow> jsnum" where
  "pitchPosition w tstart tend d =
     Math_round (js_div (js_mul w (js_sub (time d) tstart)) (js_sub tend tstart))"

text \<open>The flush inside the loop: the body of \<open>if(pitchPosition !== previousPosition)\<close>.\<close>

definition flush :: "agg \<Rightarrow> js_error + agg" where
  "flush a =
     (if 0 < length (pitchesForAverage a) then
        (case avg (pitchesForAverage a) of
           Inl e \<Rightarrow> Inl e
         | Inr avgPitch \<Rightarrow>
             let a1 = (if js_gt avgPitch (maxSegmentPitch a)
                       then a\<lparr>maxSegmentPitch := avgPitch\<rparr> else a);
                 a2 = (if js_lt avgPitch (minSegmentPitch a1)
                       then a1\<lparr>minSegmentPitch := avgPitch\<rparr> else a1)
             in Inr (a2\<lparr>pitches_acc := (pitches_acc a2)(previousPosition a2 \<mapsto> avgPitch),
                        pitchesForAverage := []\<rparr>))
      else Inr a)"

text \<open>One iteration of the \<open>for\<close> loop of \<open>calculatePitches\<close>, for the data point \<open>d\<close>.\<close>

definition loop_body :: "jsnum \<Rightarrow> jsnum \<Rightarrow> jsnum \<Rightarrow> agg \<Rightarrow> sample \<Rightarrow> js_error + agg" where
  "loop_body w tstart tend a d =
     (let a1 = (if js_gt (pitch d) (maxPitch a) then a\<lparr>maxPitch := pitch d\<rparr> else a);
          a2 = (if js_lt (pitch d) (minPitch a1) then a1\<lparr>minPitch := pitch d\<rparr> else a1)
      in if in_window tstart tend d then
           (let pos = pitchPosition w tstart tend d;
                a3 = a2\<lparr>pitchesForAverage := pitchesForAverage a2 @ [pitch d]\<rparr>
            in case (if js_sne pos (previousPosition a3) then flush a3 else Inr a3) of
                 Inl e \<Rightarrow> Inl e
               | Inr a4 \<Rightarrow> Inr (a4\<lparr>previousPosition := pos\<rparr>))
         else Inr a2)"

fun loop :: "jsnum \<Rightarrow> jsnum \<Rightarrow> jsnum \<Rightarrow> agg \<Rightarrow> sample list \<Rightarrow> js_error + agg" where
  "loop w tstart tend a [] = Inr a"
| "loop w tstart tend a (d # ds) =
     (case loop_body w tstart tend a d of
        Inl e \<Rightarrow> Inl e
      | Inr a' \<Rightarrow> loop w tstart tend a' ds)"

text \<open>\<open>normalizePitches\<close>: every entry of \<open>pitches\<close> is rescaled and cut to \<open>[0, 1]\<close> by
  the two tests of the source, in their order.\<close>

definition normalize1 :: "jsnum \<Rightarrow> jsnum \<Rightarrow> jsnum \<Rightarrow> jsnum" where
  "normalize1 lo hi v =
     (let p = js_div (js_sub v lo) (js_sub hi lo);
          p1 = (if js_gt p (Fin 1) then Fin 1 else p);
          p2 = (if js_lt p1 (Fin 0) then Fin 0 else p1)
      in p2)"

definition normalizePitches :: "jsnum \<Rightarrow> jsnum \<Rightarrow> pixel_pitch_map \<Rightarrow> pixel_pitch_map" where
  "normalizePitches lo hi m = (\<lambda>i. map_option (normalize1 lo hi) (m i))"

section \<open>The drawer object\<close>

text \<open>The parameters read by the pitch code, after \<open>initDrawer\<close> has merged the caller's
  parameters into \<open>defaultCanvasPitchParams\<close>. \<open>pitchTimeEnd\<close> has no default: it is
  \<open>undefined\<close> (\<open>None\<close>) unless the caller gives it.\<close>

record params =
  p_pitchTimeStart :: jsnum
  p_pitchTimeEnd :: "jsnum option"
  p_pitchNormalizeTo :: string
  p_pitchMin :: jsnum
  p_pitchMax :: jsnum
  p_barWidth :: bool
  p_pixelRatio :: jsnum

text \<open>The parameters as the caller passes them: a key that is absent is \<open>None\<close>.\<close>

record user_params =
  u_pitchArray :: "sample list option"
  u_pitchFileUrl :: "string option"
  u_pitchTimeStart :: "jsnum option"
  u_pitchTimeEnd :: "jsnum option"
  u_pitchNormalizeTo :: "string option"
  u_pitchMin :: "jsnum option"
  u_pitchMax :: "jsnum option"
  u_barWidth :: bool
  u_pixelRatio :: jsnum

text \<open>Modelled from the spec: the host's \<open>WaveSurfer.util.extend\<close> is not among the
  sources. \<open>initDrawer\<close> calls it on \<open>defaultCanvasPitchParams\<close> and the caller's
  parameters: every key the caller gives replaces the default.\<close>

definition util_extend :: "user_params \<Rightarrow> params" where
  "util_extend u =
     \<lparr>p_pitchTimeStart = (case u_pitchTimeStart u of None \<Rightarrow> Fin 0 | Some v \<Rightarrow> v),
      p_pitchTimeEnd = u_pitchTimeEnd u,
      p_pitchNormalizeTo = (case u_pitchNormalizeTo u of None \<Rightarrow> ''values'' | Some v \<Rightarrow> v),
      p_pitchMin = (case u_pitchMin u of None \<Rightarrow> Fin 70 | Some v \<Rightarrow> v),
      p_pitchMax = (case u_pitchMax u of None \<Rightarrow> Fin 200 | Some v \<Rightarrow> v),
      p_barWidth = u_barWidth u,
      p_pixelRatio = u_pixelRatio u\<rparr>"

text \<open>A handler subscribed with \<open>on\<close>. The only handler the drawer subscribes is the
  closure of \<open>drawPeaks\<close> that calls \<open>drawPeaks\<close> again with the same arguments.\<close>

datatype callback = DrawPeaksAgain "jsnum list" jsnum jsnum jsnum

text \<open>The passes over the canvas, in the order they ran. The painting itself is the host's
  and is not modelled further.\<close>

datatype draw_pass =
    DrawBars "jsnum list" jsnum jsnum jsnum
  | DrawWave "jsnum list" jsnum jsnum jsnum
  | DrawPitches jsnum pixel_pitch_map

record drawer =
  params :: params
  pitchTimeStart :: jsnum
  pitchTimeEnd :: jsnum
  pitchArray :: "sample list"
  pitches :: pixel_pitch_map
  pitchArrayLoaded :: bool
  width :: jsnum
  fileAjax :: "string option list"
  handlers :: "(string \<times> callback) list"
  fired :: "string list"
  passes :: "draw_pass list"

text \<open>The object as \<open>WaveSurfer.Drawer.CanvasPitch\<close> declares it, before \<open>initDrawer\<close>:
  no request sent, no handler subscribed, no event fired, nothing drawn.\<close>

definition CanvasPitch :: drawer where
  "CanvasPitch =
     \<lparr>params = util_extend \<lparr>u_pitchArray = None, u_pitchFileUrl = None, u_pitchTimeStart = None,
         u_pitchTimeEnd = None, u_pitchNormalizeTo = None, u_pitchMin = None,
         u_pitchMax = None, u_barWidth = False, u_pixelRatio = Fin 1\<rparr>,
      pitchTimeStart = Fin 0, pitchTimeEnd = Fin (- 1), pitchArray = [],
      pitches = Map.empty, pitchArrayLoaded = False, width = Fin 0,
      fileAjax = [], handlers = [], fired = [], passes = []\<rparr>"

subsection \<open>calculatePitchTimeEnd, calculatePitches\<close>

text \<open>\<open>this.pitchArray[this.pitchArray.length - 1]\<close> is \<open>undefined\<close> for an empty array, and
  reading \<open>.time\<close> of it raises.\<close>

definition calculatePitchTimeEnd :: "drawer \<Rightarrow> js_error + drawer" where
  "calculatePitchTimeEnd st =
     (case p_pitchTimeEnd (params st) of
        Some e \<Rightarrow> Inr (st\<lparr>pitchTimeEnd := e\<rparr>)
      | None \<Rightarrow>
          (if pitchArray st = [] then Inl TypeError
           else Inr (st\<lparr>pitchTimeEnd := time (last (pitchArray st))\<rparr>)))"

text \<open>The range \<open>calculatePitches\<close> hands to \<open>normalizePitches\<close> after the loop.\<close>

definition normalize_range :: "params \<Rightarrow> agg \<Rightarrow> jsnum \<times> jsnum" where
  "normalize_range p a =
     (if p_pitchNormalizeTo p = ''whole'' then (minPitch a, maxPitch a)
      else if p_pitchNormalizeTo p = ''values'' then (p_pitchMin p, p_pitchMax p)
      else (minSegmentPitch a, maxSegmentPitch a))"

definition calculatePitches :: "drawer \<Rightarrow> js_error + drawer" where
  "calculatePitches st =
     (case calculatePitchTimeEnd (st\<lparr>pitches := Map.empty\<rparr>) of
        Inl e \<Rightarrow> Inl e
      | Inr st1 \<Rightarrow>
          (case loop (width st1) (pitchTimeStart st1) (pitchTimeEnd st1) agg_init
                  (pitchArray st1) of
             Inl e \<Rightarrow> Inl e
           | Inr a \<Rightarrow>
               let (lo, hi) = normalize_range (params st1) a
               in Inr (st1\<lparr>pitches := normalizePitches lo hi (pitches_acc a)\<rparr>)))"

subsection \<open>Parsing the pitch file\<close>

text \<open>\<open>String.prototype.split\<close> with a one-character separator: the pieces between the
  separators, one piece more than there are separators.\<close>

fun split :: "char \<Rightarrow> string \<Rightarrow> string list" where
  "split sep [] = [[]]"
| "split sep (c # cs) =
     (if c = sep then [] # split sep cs
      else (case split sep cs of
              [] \<Rightarrow> [[c]]
            | piece # pieces \<Rightarrow> (c # piece) # pieces))"

text \<open>The host's \<open>parseFloat\<close>: leading white space is skipped, then the longest prefix
  that is a decimal literal (a sign, \<open>Infinity\<close> or digits with an optional fraction and
  exponent) is read and the rest ignored; without such a prefix the result is \<open>NaN\<close>.
  The value is the exact decimal value, or an infinity when that is beyond the range of
  the doubles. A string is a list of code units below 256, so of the white space that
  \<open>parseFloat\<close> skips only the ASCII characters and the no-break space occur.\<close>

definition is_space :: "char \<Rightarrow> bool" where
  "is_space c =
     (c \<in> set [CHR 0x09, CHR 0x0A, CHR 0x0B, CHR 0x0C, CHR 0x0D, CHR 0x20, CHR 0xA0])"

definition is_digit :: "char \<Rightarrow> bool" where
  "is_digit c = (48 \<le> (of_char c :: nat) \<and> (of_char c :: nat) \<le> 57)"

definition digits_val :: "string \<Rightarrow> nat" where
  "digits_val ds = foldl (\<lambda>n c. 10 * n + ((of_char c :: nat) - 48)) 0 ds"

definition read_sign :: "string \<Rightarrow> bool \<times> string" where
  "read_sign s =
     (case s of
        [] \<Rightarrow> (False, [])
      | c # r \<Rightarrow> if c = CHR ''-'' then (True, r) else if c = CHR ''+'' then (False, r)
                 else (False, s))"

definition read_exponent :: "string \<Rightarrow> int" where
  "read_exponent s =
     (case s of
        [] \<Rightarrow> 0
      | c # r \<Rightarrow>
          if c = CHR ''e'' \<or> c = CHR ''E'' then
            (let (neg, r1) = read_sign r; ds = takeWhile is_digit r1
             in if ds = [] then 0
                else if neg then - int (digits_val ds) else int (digits_val ds))
          else 0)"

definition parseFloat :: "string \<Rightarrow> jsnum" where
  "parseFloat s =
     (let (neg, s1) = read_sign (dropWhile is_space s) in
      if take 8 s1 = ''Infinity'' then (if neg then NegInf else PosInf)
      else
        (let ip = takeWhile is_digit s1;
             r1 = dropWhile is_digit s1;
             (fp, r2) = (case r1 of
                           [] \<Rightarrow> ([], [])
                         | c # r \<Rightarrow> if c = CHR ''.''
                                    then (takeWhile is_digit r, dropWhile is_digit r)
                                    else ([], r1))
         in if ip = [] \<and> fp = [] then NaN
            else
              (let m = real (digits_val ip) + real (digits_val fp) / 10 ^ length fp;
                   ex = read_exponent r2;
                   scaled = (if 0 \<le> ex then m * 10 ^ nat ex else m / 10 ^ nat (- ex))
               in to_number (if neg then - scaled else scaled))))"

text \<open>The loop of the \<open>load\<close> handler over the lines, pushing onto \<open>pitchArray\<close>.\<close>

fun parse_lines :: "string list \<Rightarrow> sample list \<Rightarrow> sample list" where
  "parse_lines [] acc = acc"
| "parse_lines (l # ls) acc =
     (let pitchParts = split (CHR 0x09) l
      in parse_lines ls
           (if length pitchParts = 2
            then acc @ [\<lparr>time = parseFloat (pitchParts ! 0), pitch = parseFloat (pitchParts ! 1)\<rparr>]
            else acc))"

definition parse_responseText :: "string \<Rightarrow> sample list" where
  "parse_responseText responseText = parse_lines (split (CHR 0x0A) responseText) []"

subsection \<open>Events, loading and drawing\<close>

text \<open>Modelled from the spec: the host's event mechanism (\<open>WaveSurfer.Observer\<close>, mixed
  into the drawer by the last line of the file) is not among the sources. \<open>on\<close> subscribes
  a handler under an event name; \<open>fireEvent\<close> calls, in the order they subscribed, the
  handlers subscribed under that very name. \<open>fired\<close> keeps the names fired so far.\<close>

definition on :: "string \<Rightarrow> callback \<Rightarrow> drawer \<Rightarrow> drawer" where
  "on event fn st = st\<lparr>handlers := handlers st @ [(event, fn)]\<rparr>"

text \<open>Modelled from the spec: the host's \<open>setWidth\<close> (of \<open>WaveSurfer.Drawer\<close>) is not among
  the sources; it is the setter of the width the aggregator reads.\<close>

definition setWidth :: "jsnum \<Rightarrow> drawer \<Rightarrow> drawer" where
  "setWidth len st = st\<lparr>width := len\<rparr>"

definition drawPeaks ::
  "jsnum list \<Rightarrow> jsnum \<Rightarrow> jsnum \<Rightarrow> jsnum \<Rightarrow> drawer \<Rightarrow> js_error + drawer" where
  "drawPeaks peaks len start endp st =
     (if pitchArrayLoaded st then
        (let st1 = setWidth len st;
             st2 = st1\<lparr>passes := passes st1 @
                     [if p_barWidth (params st1) then DrawBars peaks (Fin 0) start endp
                      else DrawWave peaks (Fin 1) start endp]\<rparr>
         in case calculatePitches st2 of
              Inl e \<Rightarrow> Inl e
            | Inr st3 \<Rightarrow>
                let st4 = st3\<lparr>passes := passes st3 @ [DrawPitches (Fin 0) (pitches st3)]\<rparr>
                in Inr (st4\<lparr>params := (params st4)\<lparr>p_pixelRatio := Fin 2\<rparr>\<rparr>))
      else Inr (on ''pitch-array-loaded'' (DrawPeaksAgain peaks len start endp) st))"

fun call :: "callback \<Rightarrow> drawer \<Rightarrow> js_error + drawer" where
  "call (DrawPeaksAgain peaks len start endp) st = drawPeaks peaks len start endp st"

fun call_each :: "callback list \<Rightarrow> drawer \<Rightarrow> js_error + drawer" where
  "call_each [] st = Inr st"
| "call_each (fn # fns) st =
     (case call fn st of
        Inl e \<Rightarrow> Inl e
      | Inr st' \<Rightarrow> call_each fns st')"

text \<open>Modelled from the spec: the host's \<open>fireEvent\<close> (of \<open>WaveSurfer.Observer\<close>) is not
  among the sources. It calls the handlers subscribed under the name fired, and only
  those; an exception of a handler ends the call.\<close>

definition fireEvent :: "string \<Rightarrow> drawer \<Rightarrow> js_error + drawer" where
  "fireEvent event st =
     call_each (map snd (filter (\<lambda>h. fst h = event) (handlers st)))
       (st\<lparr>fired := fired st @ [event]\<rparr>)"

text \<open>\<open>onPitchArrayLoaded\<close>, the closure \<open>initDrawer\<close> hands to the loader.\<close>

definition onPitchArrayLoaded :: "sample list \<Rightarrow> drawer \<Rightarrow> js_error + drawer" where
  "onPitchArrayLoaded arr st =
     fireEvent ''pitch_array_loaded'' (st\<lparr>pitchArray := arr, pitchArrayLoaded := True\<rparr>)"

text \<open>\<open>loadPitchArrayFromFile\<close> sends the request and subscribes to its \<open>load\<close> event;
  \<open>fileAjax\<close> keeps the requests sent. The handler runs when the request completes, with
  the status and the text of the response.\<close>

definition loadPitchArrayFromFile :: "string option \<Rightarrow> drawer \<Rightarrow> drawer" where
  "loadPitchArrayFromFile pitchFileUrl st = st\<lparr>fileAjax := fileAjax st @ [pitchFileUrl]\<rparr>"

definition fileAjax_load ::
  "(sample list \<Rightarrow> drawer \<Rightarrow> js_error + drawer) \<Rightarrow> nat \<Rightarrow> string \<Rightarrow> drawer
     \<Rightarrow> js_error + drawer" where
  "fileAjax_load onSuccess status responseText st =
     (if status = 200 then onSuccess (parse_responseText responseText) st else Inr st)"

definition initDrawer :: "user_params \<Rightarrow> drawer \<Rightarrow> drawer" where
  "initDrawer u st =
     (let st1 = st\<lparr>params := util_extend u\<rparr>;
          st2 = st1\<lparr>pitchTimeStart := p_pitchTimeStart (params st1)\<rparr>;
          st3 = (case p_pitchTimeEnd (params st2) of
                   None \<Rightarrow> st2
                 | Some e \<Rightarrow> st2\<lparr>pitchTimeEnd := e\<rparr>);
          st4 = st3\<lparr>pitchArrayLoaded := False\<rparr>
      in case u_pitchArray u of
           Some arr \<Rightarrow> st4\<lparr>pitchArray := arr, pitchArrayLoaded := True\<rparr>
         | None \<Rightarrow> loadPitchArrayFromFile (u_pitchFileUrl u) st4)"

section \<open>Definitions used to state the properties\<close>

text \<open>\<open>clamp(x, lo, hi)\<close> as the specification writes it, with the host's \<open>Math.min\<close> and
  \<open>Math.max\<close>.\<close>

definition clamp :: "jsnum \<Rightarrow> jsnum \<Rightarrow> jsnum \<Rightarrow> jsnum" where
  "clamp x lo hi = Math_max lo (Math_min hi x)"

text \<open>The parameters of a caller who gives the URL of a pitch file and nothing else.\<close>

definition file_params :: "string \<Rightarrow> user_params" where
  "file_params url =
     \<lparr>u_pitchArray = None, u_pitchFileUrl = Some url, u_pitchTimeStart = None,
      u_pitchTimeEnd = None, u_pitchNormalizeTo = None, u_pitchMin = None,
      u_pitchMax = None, u_barWidth = False, u_pixelRatio = Fin 1\<rparr>"

text \<open>The sample a line of exactly two fields is read as.\<close>

definition line_sample :: "string \<Rightarrow> sample" where
  "line_sample l =
     \<lparr>time = parseFloat (split (CHR 0x09) l ! 0), pitch = parseFloat (split (CHR 0x09) l ! 1)\<rparr>"

text \<open>The running extrema of the loop, as it keeps them: a value replaces the extremum
  when the comparison of the source holds, so a \<open>NaN\<close> never does.\<close>

definition running_max :: "jsnum \<Rightarrow> jsnum list \<Rightarrow> jsnum" where
  "running_max seed ps = foldl (\<lambda>m p. if js_gt p m then p else m) seed ps"

definition running_min :: "jsnum \<Rightarrow> jsnum list \<Rightarrow> jsnum" where
  "running_min seed ps = foldl (\<lambda>m p. if js_lt p m then p else m) seed ps"

text \<open>The finite numbers.\<close>

fun is_fin :: "jsnum \<Rightarrow> bool" where
  "is_fin (Fin r) = True"
| "is_fin a = False"

text \<open>The real number a finite JavaScript number stands for.\<close>

fun fin_val :: "jsnum \<Rightarrow> real" where
  "fin_val (Fin r) = r"
| "fin_val _ = 0"

text \<open>The numbers that are not below zero: the finite ones from zero on, \<open>Infinity\<close> and,
  not being a number below zero, \<open>NaN\<close>.\<close>

fun not_negative :: "jsnum \<Rightarrow> bool" where
  "not_negative (Fin r) = (0 \<le> r)"
| "not_negative PosInf = True"
| "not_negative NegInf = False"
| "not_negative NaN = True"

text \<open>The averages the loop flushes, in the order it flushes them: one for every data point
  in the window whose position differs from the previous position.\<close>

fun flushed_means :: "jsnum \<Rightarrow> jsnum \<Rightarrow> jsnum \<Rightarrow> agg \<Rightarrow> sample list \<Rightarrow> jsnum list" where
  "flushed_means w tstart tend a [] = []"
| "flushed_means w tstart tend a (d # ds) =
     (case loop_body w tstart tend a d of
        Inl e \<Rightarrow> []
      | Inr a' \<Rightarrow>
          (if in_window tstart tend d
               \<and> js_sne (pitchPosition w tstart tend d) (previousPosition a)
           then (case avg (pitchesForAverage a @ [pitch d]) of Inl e \<Rightarrow> [] | Inr m \<Rightarrow> [m])
           else [])
          @ flushed_means w tstart tend a' ds)"

text \<open>The positions of the data points in the window, in the order of the series.\<close>

definition in_window_positions :: "jsnum \<Rightarrow> jsnum \<Rightarrow> jsnum \<Rightarrow> sample list \<Rightarrow> jsnum list" where
  "in_window_positions w tstart tend ds =
     map (pitchPosition w tstart tend) (filter (in_window tstart tend) ds)"

text \<open>The parameters of a caller who gives the series inline and nothing else, and the
  drawer such a caller gets, with a normalization policy (or none) and a width set.\<close>

definition array_params :: "sample list \<Rightarrow> user_params" where
  "array_params arr =
     \<lparr>u_pitchArray = Some arr, u_pitchFileUrl = None, u_pitchTimeStart = None,
      u_pitchTimeEnd = None, u_pitchNormalizeTo = None, u_pitchMin = None,
      u_pitchMax = None, u_barWidth = False, u_pixelRatio = Fin 1\<rparr>"

definition array_drawer :: "sample list \<Rightarrow> string option \<Rightarrow> jsnum \<Rightarrow> drawer" where
  "array_drawer arr policy w =
     setWidth w (initDrawer ((array_params arr)\<lparr>u_pitchNormalizeTo := policy\<rparr>) CanvasPitch)"

text \<open>Series used as examples: the one of the specification (three columns, one sample
  each), one whose first column holds two samples, one whose last column holds two
  samples, one whose window has no duration, one of negative pitches and one that is
  not sorted by time.\<close>

definition spec_series :: "sample list" where
  "spec_series =
     [\<lparr>time = Fin 0, pitch = Fin 100\<rparr>, \<lparr>time = Fin (1 / 2), pitch = Fin 120\<rparr>,
      \<lparr>time = Fin 1, pitch = Fin 140\<rparr>]"

definition mixing_series :: "sample list" where
  "mixing_series =
     [\<lparr>time = Fin 0, pitch = Fin 100\<rparr>, \<lparr>time = Fin (1 / 10), pitch = Fin 110\<rparr>,
      \<lparr>time = Fin 1, pitch = Fin 120\<rparr>]"

definition trailing_series :: "sample list" where
  "trailing_series =
     [\<lparr>time = Fin 0, pitch = Fin 100\<rparr>, \<lparr>time = Fin (1 / 2), pitch = Fin 120\<rparr>,
      \<lparr>time = Fin (9 / 10), pitch = Fin 130\<rparr>, \<lparr>time = Fin 1, pitch = Fin 140\<rparr>]"


definition negative_series :: "sample list" where
  "negative_series = [\<lparr>time = Fin 0, pitch = Fin (- 5)\<rparr>, \<lparr>time = Fin 1, pitch = Fin (- 3)\<rparr>]"

definition unsorted_series :: "sample list" where
  "unsorted_series =
     [\<lparr>time = Fin 0, pitch = Fin 100\<rparr>, \<lparr>time = Fin 1, pitch = Fin 190\<rparr>,
      \<lparr>time = Fin 0, pitch = Fin 110\<rparr>, \<lparr>time = Fin 1, pitch = Fin 120\<rparr>]"

section \<open>Overflow\<close>

lemma overflow_threshold_large: "10 ^ 12 < overflow_threshold"
  by (simp add: overflow_threshold_def)

lemma to_number_small: "\<bar>r\<bar> \<le> 10 ^ 12 \<Longrightarrow> to_number r = Fin r"
  using overflow_threshold_large by (auto simp: to_number_def)

lemma finite_result_small: "\<bar>r\<bar> \<le> 10 ^ 12 \<Longrightarrow> finite_result x y r = Fin r"
  by (simp add: finite_result_def to_number_small)

lemma finite_result_self: "finite_result x 1 x = Fin x"
  by (auto simp: finite_result_def to_number_def is_double_def)

lemma finite_result_cases:
  "finite_result x y r = Fin r \<or> (finite_result x y r = PosInf \<and> 0 < r)
     \<or> (finite_result x y r = NegInf \<and> r < 0)"
  using overflow_threshold_large
  by (auto simp: finite_result_def to_number_def)

lemma not_negative_finite_result: "0 \<le> r \<Longrightarrow> not_negative (finite_result x y r)"
  using finite_result_cases [of x y r] by auto

section \<open>The parser\<close>

lemma parse_lines_acc:
  "parse_lines ls acc =
     acc @ map line_sample (filter (\<lambda>l. length (split (CHR 0x09) l) = 2) ls)"
  by (induction ls arbitrary: acc) (simp_all add: Let_def line_sample_def)

lemma length_split: "length (split sep s) = Suc (length (filter (\<lambda>c. c = sep) s))"
  by (induction s) (auto split: list.splits)

lemma parseFloat_not_numeric: "parseFloat ''a'' = NaN" "parseFloat ''b'' = NaN"
  by (simp_all add: parseFloat_def read_sign_def is_digit_def is_space_def)

text \<open>
  C7. The text of the response is split at line feeds and every line at tabs; the lines
  of exactly two fields become the samples, in their order, and every other line is
  left out. The three lines \<open>1.2<TAB>100.0\<close>, \<open>garbage\<close>, \<open>2.4<TAB>110.0\<close> give the
  two samples \<open>(1.2, 100)\<close> and \<open>(2.4, 110)\<close>.
\<close>

theorem parser_keeps_two_field_lines:
  "parse_responseText text =
     map line_sample (filter (\<lambda>l. length (split (CHR 0x09) l) = 2) (split (CHR 0x0A) text))
   \<and> parse_responseText
        (''1.2'' @ [CHR 0x09] @ ''100.0'' @ [CHR 0x0A] @ ''garbage'' @ [CHR 0x0A] @
         ''2.4'' @ [CHR 0x09] @ ''110.0'')
     = [\<lparr>time = Fin (12 / 10), pitch = Fin 100\<rparr>, \<lparr>time = Fin (24 / 10), pitch = Fin 110\<rparr>]"
proof
  show "parse_responseText text =
     map line_sample (filter (\<lambda>l. length (split (CHR 0x09) l) = 2) (split (CHR 0x0A) text))"
    by (simp add: parse_responseText_def parse_lines_acc)
  show "parse_responseText
        (''1.2'' @ [CHR 0x09] @ ''100.0'' @ [CHR 0x0A] @ ''garbage'' @ [CHR 0x0A] @
         ''2.4'' @ [CHR 0x09] @ ''110.0'')
     = [\<lparr>time = Fin (12 / 10), pitch = Fin 100\<rparr>, \<lparr>time = Fin (24 / 10), pitch = Fin 110\<rparr>]"
    by (simp add: parse_responseText_def parseFloat_def read_sign_def is_digit_def
        is_space_def digits_val_def read_exponent_def to_number_small)
qed

text \<open>
  C10. A line of exactly two tab-separated fields is kept whatever the fields are: among
  the lines before and after it, it contributes the sample of \<open>parseFloat\<close> of its two
  fields, and \<open>parseFloat\<close> of a text that is no number is \<open>NaN\<close>. The file of the one line
  \<open>a<TAB>b\<close> loads as the one sample with time \<open>NaN\<close> and pitch \<open>NaN\<close>.
\<close>

theorem two_field_line_always_kept:
  assumes "length (split (CHR 0x09) l) = 2"
  shows "parse_lines (before @ l # after) [] =
           parse_lines before [] @
           \<lparr>time = parseFloat (split (CHR 0x09) l ! 0),
            pitch = parseFloat (split (CHR 0x09) l ! 1)\<rparr> # parse_lines after []"
  using assms by (simp add: parse_lines_acc line_sample_def)

theorem two_field_line_always_kept_witness:
  "length (split (CHR 0x09) (''a'' @ [CHR 0x09] @ ''b'')) = 2
   \<and> parse_responseText (''a'' @ [CHR 0x09] @ ''b'') = [\<lparr>time = NaN, pitch = NaN\<rparr>]"
proof -
  have h: "length (split (CHR 0x09) (''a'' @ [CHR 0x09] @ ''b'')) = 2" by simp
  show ?thesis using two_field_line_always_kept [OF h, of "[]" "[]"]
    by (simp add: parse_responseText_def parseFloat_not_numeric)
qed

section \<open>The loader\<close>

text \<open>
  C8. When the request completes with a status other than 200, the \<open>load\<close> handler
  leaves the drawer as it was, whatever the completion callback is: the callback is not
  called, \<open>pitchArrayLoaded\<close> stays as it was and no event is fired.
\<close>

theorem failed_fetch_never_completes:
  assumes "status \<noteq> 200"
  shows "fileAjax_load onSuccess status responseText st = Inr st"
  using assms by (simp add: fileAjax_load_def)

theorem failed_fetch_never_completes_witness:
  "(404::nat) \<noteq> 200
   \<and> fileAjax_load onPitchArrayLoaded 404 ''Not Found''
        (initDrawer (file_params ''pitch.txt'') CanvasPitch)
     = Inr (initDrawer (file_params ''pitch.txt'') CanvasPitch)
   \<and> \<not> pitchArrayLoaded (initDrawer (file_params ''pitch.txt'') CanvasPitch)
   \<and> fired (initDrawer (file_params ''pitch.txt'') CanvasPitch) = []"
proof -
  have h: "(404::nat) \<noteq> 200" by simp
  show ?thesis
    using failed_fetch_never_completes [OF h, of onPitchArrayLoaded "''Not Found''"
        "initDrawer (file_params ''pitch.txt'') CanvasPitch"]
    by (simp add: initDrawer_def CanvasPitch_def loadPitchArrayFromFile_def Let_def
        file_params_def util_extend_def)
qed

text \<open>
  C3. A draw request made while the series is loading subscribes to the event
  \<open>pitch-array-loaded\<close>; when the request then completes with status 200 the loader
  stores the series and fires \<open>pitch_array_loaded\<close>. No handler is subscribed under that
  name: the deferred request stays subscribed and is not run, no pass is drawn and
  \<open>pitches\<close> stays empty.
\<close>

theorem deferred_draw_never_runs:
  "(case drawPeaks peaks len start endp (initDrawer (u\<lparr>u_pitchArray := None\<rparr>) CanvasPitch) of
      Inl _ \<Rightarrow> False
    | Inr st2 \<Rightarrow>
        handlers st2 = [(''pitch-array-loaded'', DrawPeaksAgain peaks len start endp)]
        \<and> (case fileAjax_load onPitchArrayLoaded 200 responseText st2 of
              Inl _ \<Rightarrow> False
            | Inr st3 \<Rightarrow>
                pitchArrayLoaded st3 \<and> pitchArray st3 = parse_responseText responseText
                \<and> fired st3 = [''pitch_array_loaded'']
                \<and> handlers st3 = handlers st2
                \<and> passes st3 = [] \<and> pitches st3 = Map.empty))"
  by (simp add: drawPeaks_def initDrawer_def CanvasPitch_def loadPitchArrayFromFile_def
      on_def fileAjax_load_def onPitchArrayLoaded_def fireEvent_def Let_def
      split: option.splits)

section \<open>The normalizer\<close>

lemma normalize1_clamp:
  "normalize1 lo hi v = clamp (js_div (js_sub v lo) (js_sub hi lo)) (Fin 0) (Fin 1)"
  by (cases "js_div (js_sub v lo) (js_sub hi lo)")
     (auto simp: normalize1_def clamp_def Math_max_def Math_min_def js_gt_def Let_def)

lemma range_difference:
  assumes "a < b"
  shows "js_sub (Fin b) (Fin a) = Fin (b - a) \<or> js_sub (Fin b) (Fin a) = PosInf"
  using assms finite_result_cases [of b "- a" "b - a"] by (auto simp: js_sub_def)

lemma value_difference:
  "js_sub (Fin v) (Fin a) = Fin (v - a) \<or> js_sub (Fin v) (Fin a) = PosInf
     \<or> js_sub (Fin v) (Fin a) = NegInf"
  using finite_result_cases [of v "- a" "v - a"] by (auto simp: js_sub_def)

lemma quotient_not_NaN:
  assumes "a < b"
    and "is_fin (js_sub (Fin v) (Fin a)) \<or> is_fin (js_sub (Fin b) (Fin a))"
  shows "js_div (js_sub (Fin v) (Fin a)) (js_sub (Fin b) (Fin a)) \<noteq> NaN"
proof -
  consider (fin) "js_sub (Fin b) (Fin a) = Fin (b - a)" | (inf) "js_sub (Fin b) (Fin a) = PosInf"
    using range_difference [OF assms(1)] by blast
  then show ?thesis
  proof cases
    case fin
    have pos: "b - a \<noteq> 0" "\<not> b - a < 0" using assms(1) by simp_all
    show ?thesis
      using value_difference [of v a] fin pos
        finite_result_cases [of "v - a" "b - a" "(v - a) / (b - a)"]
      by (auto simp: inf_of_sign_def)
  next
    case inf
    then have "is_fin (js_sub (Fin v) (Fin a))" using assms(2) by simp
    then show ?thesis using inf by (cases "js_sub (Fin v) (Fin a)") simp_all
  qed
qed

lemma cut_to_unit:
  assumes "q \<noteq> NaN"
  shows "\<exists>r. (if js_lt (if js_gt q (Fin 1) then Fin 1 else q) (Fin 0) then Fin 0
               else (if js_gt q (Fin 1) then Fin 1 else q)) = Fin r \<and> 0 \<le> r \<and> r \<le> 1"
  using assms by (cases q) (auto simp: js_gt_def)

lemma normalize1_bounded:
  assumes "a < b"
    and "is_fin (js_sub (Fin v) (Fin a)) \<or> is_fin (js_sub (Fin b) (Fin a))"
  shows "\<exists>r. normalize1 (Fin a) (Fin b) (Fin v) = Fin r \<and> 0 \<le> r \<and> r \<le> 1"
  using cut_to_unit [OF quotient_not_NaN [OF assms]] by (simp add: normalize1_def Let_def)

text \<open>
  C6 (as amended). \<open>normalizePitches\<close> replaces every value \<open>v\<close> of the map by
  \<open>clamp((v - min) / (max - min), 0, 1)\<close> and keeps the keys, whatever the range and the
  values. When \<open>min < max\<close> are finite, the value is finite and at least one of the
  differences \<open>v - min\<close> and \<open>max - min\<close> is finite (has not overflowed), the result is
  a finite number between 0 and 1.
\<close>

theorem normalizePitches_clamps:
  "(\<forall>lo hi m j. normalizePitches lo hi m j =
       map_option (\<lambda>x. clamp (js_div (js_sub x lo) (js_sub hi lo)) (Fin 0) (Fin 1)) (m j))
   \<and> (\<forall>a b v m i.
         a < b \<and> m i = Some (Fin v)
         \<and> (is_fin (js_sub (Fin v) (Fin a)) \<or> is_fin (js_sub (Fin b) (Fin a)))
         \<longrightarrow> (\<exists>r. normalizePitches (Fin a) (Fin b) m i = Some (Fin r) \<and> 0 \<le> r \<and> r \<le> 1))"
proof (intro conjI allI impI)
  fix lo hi m j
  show "normalizePitches lo hi m j =
       map_option (\<lambda>x. clamp (js_div (js_sub x lo) (js_sub hi lo)) (Fin 0) (Fin 1)) (m j)"
    by (simp add: normalizePitches_def normalize1_clamp [symmetric])
next
  fix a b v :: real and m :: pixel_pitch_map and i
  assume h: "a < b \<and> m i = Some (Fin v)
         \<and> (is_fin (js_sub (Fin v) (Fin a)) \<or> is_fin (js_sub (Fin b) (Fin a)))"
  then obtain r where "normalize1 (Fin a) (Fin b) (Fin v) = Fin r" "0 \<le> r" "r \<le> 1"
    using normalize1_bounded [of a b v] by blast
  with h show "\<exists>r. normalizePitches (Fin a) (Fin b) m i = Some (Fin r) \<and> 0 \<le> r \<and> r \<le> 1"
    by (simp add: normalizePitches_def)
qed

theorem normalizePitches_clamps_witness:
  "(70::real) < 200 \<and> [Fin 3 \<mapsto> Fin 330] (Fin 3) = Some (Fin 330)
   \<and> is_fin (js_sub (Fin 330) (Fin 70))
   \<and> normalizePitches (Fin 70) (Fin 200) [Fin 3 \<mapsto> Fin 330] (Fin 3) = Some (Fin 1)
   \<and> normalizePitches (Fin 70) (Fin 200) [Fin 3 \<mapsto> Fin 330] (Fin 4) = None"
proof -
  have h: "(70::real) < 200" by simp
  have k: "[Fin 3 \<mapsto> Fin 330] (Fin 3) = Some (Fin 330)" by simp
  have f: "is_fin (js_sub (Fin 330) (Fin 70))"
    by (simp add: js_sub_def finite_result_small)
  have "normalizePitches (Fin 70) (Fin 200) [Fin 3 \<mapsto> Fin 330] (Fin 3) = Some (Fin 1)"
    and "normalizePitches (Fin 70) (Fin 200) [Fin 3 \<mapsto> Fin 330] (Fin 4) = None"
    using normalizePitches_clamps h k f
    by (simp_all add: clamp_def Math_max_def Math_min_def js_sub_def finite_result_small)
  with h k f show ?thesis by simp
qed

text \<open>
  C6 as stated fails where both differences overflow: with \<open>min = -1.7e308\<close>,
  \<open>max = 1.7e308\<close> and the value \<open>1.7e308\<close>, all finite doubles with \<open>min < max\<close>,
  \<open>v - min\<close> and \<open>max - min\<close> are both \<open>Infinity\<close>, their quotient is \<open>NaN\<close>, neither
  test of \<open>normalizePitches\<close> holds for it, and \<open>NaN\<close> is stored.
\<close>

theorem normalized_value_is_NaN_on_overflow:
  "(- (17 * 10 ^ 307) :: real) < 17 * 10 ^ 307
   \<and> is_double (17 * 10 ^ 307) \<and> is_double (- (17 * 10 ^ 307))
   \<and> js_sub (Fin (17 * 10 ^ 307)) (Fin (- (17 * 10 ^ 307))) = PosInf
   \<and> normalizePitches (Fin (- (17 * 10 ^ 307))) (Fin (17 * 10 ^ 307))
        [Fin 0 \<mapsto> Fin (17 * 10 ^ 307)] (Fin 0) = Some NaN"
  by (simp add: normalizePitches_def normalize1_def js_sub_def js_gt_def finite_result_def
      to_number_def is_double_def overflow_threshold_def)

section \<open>The aggregator\<close>

text \<open>
  C4. With an empty \<open>pitchArray\<close> and no \<open>pitchTimeEnd\<close> among the parameters,
  \<open>calculatePitches\<close> raises a TypeError: \<open>calculatePitchTimeEnd\<close> reads \<open>.time\<close> of the
  last element of the empty array. With a \<open>pitchTimeEnd\<close> given, the same empty array
  gives the empty map and no exception.
\<close>

theorem empty_pitchArray_raises:
  "calculatePitches (st\<lparr>pitchArray := [], params := (params st)\<lparr>p_pitchTimeEnd := None\<rparr>\<rparr>)
     = Inl TypeError
   \<and> calculatePitches (st\<lparr>pitchArray := [], params := (params st)\<lparr>p_pitchTimeEnd := Some e\<rparr>\<rparr>)
     = Inr (st\<lparr>pitchArray := [], params := (params st)\<lparr>p_pitchTimeEnd := Some e\<rparr>,
               pitches := Map.empty, pitchTimeEnd := e\<rparr>)"
  by (simp add: calculatePitches_def calculatePitchTimeEnd_def normalizePitches_def
      agg_init_def split: prod.splits)

subsection \<open>One iteration of the loop\<close>

lemma avg_nonempty: "vs \<noteq> [] \<Longrightarrow> \<exists>m. avg vs = Inr m"
  by (cases vs) (simp_all add: avg_def)

lemma js_div_one: "js_div p (Fin 1) = p"
  by (cases p) (simp_all add: inf_of_sign_def finite_result_self)

lemma avg_single: "avg [p] = Inr p"
  by (simp add: avg_def js_div_one)

lemma loop_body_out:
  assumes "\<not> in_window tstart tend d"
  shows "\<exists>a'. loop_body w tstart tend a d = Inr a'
           \<and> pitches_acc a' = pitches_acc a
           \<and> pitchesForAverage a' = pitchesForAverage a
           \<and> previousPosition a' = previousPosition a
           \<and> maxSegmentPitch a' = maxSegmentPitch a
           \<and> minSegmentPitch a' = minSegmentPitch a"
  using assms by (simp add: loop_body_def Let_def)

lemma loop_body_same:
  assumes "in_window tstart tend d"
    and "\<not> js_sne (pitchPosition w tstart tend d) (previousPosition a)"
  shows "\<exists>a'. loop_body w tstart tend a d = Inr a'
           \<and> pitches_acc a' = pitches_acc a
           \<and> pitchesForAverage a' = pitchesForAverage a @ [pitch d]
           \<and> previousPosition a' = pitchPosition w tstart tend d
           \<and> maxSegmentPitch a' = maxSegmentPitch a
           \<and> minSegmentPitch a' = minSegmentPitch a"
  using assms by (simp add: loop_body_def Let_def)

lemma loop_body_change:
  assumes "in_window tstart tend d"
    and "js_sne (pitchPosition w tstart tend d) (previousPosition a)"
  shows "\<exists>m a'. avg (pitchesForAverage a @ [pitch d]) = Inr m
           \<and> loop_body w tstart tend a d = Inr a'
           \<and> pitches_acc a' = (pitches_acc a)(previousPosition a \<mapsto> m)
           \<and> pitchesForAverage a' = []
           \<and> previousPosition a' = pitchPosition w tstart tend d
           \<and> maxSegmentPitch a' = (if js_gt m (maxSegmentPitch a) then m else maxSegmentPitch a)
           \<and> minSegmentPitch a' = (if js_lt m (minSegmentPitch a) then m else minSegmentPitch a)"
proof -
  obtain m where m: "avg (pitchesForAverage a @ [pitch d]) = Inr m"
    using avg_nonempty [of "pitchesForAverage a @ [pitch d]"] by auto
  show ?thesis using assms m
    by (simp add: loop_body_def flush_def Let_def)
qed

lemma loop_body_total: "\<exists>a'. loop_body w tstart tend a d = Inr a'"
  using loop_body_out [of tstart tend d w a] loop_body_same [of tstart tend d w a]
    loop_body_change [of tstart tend d w a]
  by blast

lemma loop_append:
  "loop w tstart tend a (xs @ ys) =
     (case loop w tstart tend a xs of Inl e \<Rightarrow> Inl e | Inr a' \<Rightarrow> loop w tstart tend a' ys)"
  by (induction xs arbitrary: a) (simp_all split: sum.splits)


lemmas eval_defs = agg_init_def loop_body_def flush_def avg_def
      in_window_def pitchPosition_def js_ge_def js_le_def js_seq_def js_sne_def js_gt_def
      js_sub_def inf_of_sign_def Let_def finite_result_small

lemmas drawer_defs = array_drawer_def array_params_def setWidth_def initDrawer_def
  CanvasPitch_def util_extend_def calculatePitches_def calculatePitchTimeEnd_def
  normalize_range_def

text \<open>
  C1. When a data point in the window has a position different from the previous
  position, the loop body has already pushed its pitch onto \<open>pitchesForAverage\<close>: the
  average recorded at the previous position is the average of the buffer together with
  the pitch of the triggering point, the segment extrema are updated with that average,
  and the buffer is empty afterwards, so the triggering pitch does not accumulate into the
  new column.
\<close>

theorem column_change_flushes_with_trigger:
  assumes "in_window tstart tend d"
    and "js_sne (pitchPosition w tstart tend d) (previousPosition a)"
  shows "\<exists>m a'. avg (pitchesForAverage a @ [pitch d]) = Inr m
           \<and> loop_body w tstart tend a d = Inr a'
           \<and> pitches_acc a' = (pitches_acc a)(previousPosition a \<mapsto> m)
           \<and> pitchesForAverage a' = []
           \<and> previousPosition a' = pitchPosition w tstart tend d
           \<and> maxSegmentPitch a' = (if js_gt m (maxSegmentPitch a) then m else maxSegmentPitch a)
           \<and> minSegmentPitch a' = (if js_lt m (minSegmentPitch a) then m else minSegmentPitch a)"
  using assms by (rule loop_body_change)

lemma mixing_series_prefix:
  "loop (Fin 1) (Fin 0) (Fin 1) agg_init (butlast mixing_series) =
    Inr \<lparr>pitches_acc = [Fin (- 1) \<mapsto> Fin 100], pitchesForAverage = [Fin 110],
         previousPosition = Fin 0, maxPitch = Fin 110, minPitch = Fin 100,
         maxSegmentPitch = Fin 100, minSegmentPitch = Fin 100\<rparr>"
  by (simp add: mixing_series_def eval_defs)

theorem column_change_flushes_with_trigger_witness:
  "in_window (Fin 0) (Fin 1) (last mixing_series)
   \<and> js_sne (pitchPosition (Fin 1) (Fin 0) (Fin 1) (last mixing_series)) (Fin 0)
   \<and> loop (Fin 1) (Fin 0) (Fin 1) agg_init (butlast mixing_series) =
       Inr \<lparr>pitches_acc = [Fin (- 1) \<mapsto> Fin 100], pitchesForAverage = [Fin 110],
            previousPosition = Fin 0, maxPitch = Fin 110, minPitch = Fin 100,
            maxSegmentPitch = Fin 100, minSegmentPitch = Fin 100\<rparr>
   \<and> loop (Fin 1) (Fin 0) (Fin 1) agg_init mixing_series =
       Inr \<lparr>pitches_acc = [Fin (- 1) \<mapsto> Fin 100, Fin 0 \<mapsto> Fin 115], pitchesForAverage = [],
            previousPosition = Fin 1, maxPitch = Fin 120, minPitch = Fin 100,
            maxSegmentPitch = Fin 115, minSegmentPitch = Fin 100\<rparr>"
proof -
  have w: "in_window (Fin 0) (Fin 1) (last mixing_series)"
    by (simp add: mixing_series_def eval_defs)
  have c: "js_sne (pitchPosition (Fin 1) (Fin 0) (Fin 1) (last mixing_series))
             (previousPosition \<lparr>pitches_acc = [Fin (- 1) \<mapsto> Fin 100], pitchesForAverage = [Fin 110],
            previousPosition = Fin 0, maxPitch = Fin 110, minPitch = Fin 100,
            maxSegmentPitch = Fin 100, minSegmentPitch = Fin 100\<rparr>)"
    by (simp add: mixing_series_def eval_defs)
  have full: "loop (Fin 1) (Fin 0) (Fin 1) agg_init mixing_series =
       Inr \<lparr>pitches_acc = [Fin (- 1) \<mapsto> Fin 100, Fin 0 \<mapsto> Fin 115], pitchesForAverage = [],
            previousPosition = Fin 1, maxPitch = Fin 120, minPitch = Fin 100,
            maxSegmentPitch = Fin 115, minSegmentPitch = Fin 100\<rparr>"
    by (simp add: mixing_series_def eval_defs)
  show ?thesis using column_change_flushes_with_trigger [OF w c] w c mixing_series_prefix full by simp
qed

subsection \<open>The entry at key -1\<close>

lemma loop_body_keeps_key:
  assumes "previousPosition a \<noteq> k" 
  shows "\<exists>a'. loop_body w tstart tend a d = Inr a' \<and> pitches_acc a' k = pitches_acc a k
     \<and> (previousPosition a' = previousPosition a \<or> (in_window tstart tend d \<and> previousPosition a' = pitchPosition w tstart tend d))"
proof (cases "in_window tstart tend d")
  case False
  then show ?thesis using loop_body_out [of tstart tend d w a] by auto
next
  case True
  show ?thesis
  proof (cases "js_sne (pitchPosition w tstart tend d) (previousPosition a)")
    case True
    with \<open>in_window tstart tend d\<close> assms show ?thesis
      using loop_body_change [of tstart tend d w a] by auto
  next
    case False
    with \<open>in_window tstart tend d\<close> show ?thesis
      using loop_body_same [of tstart tend d w a] by auto
  qed
qed

lemma loop_keeps_key:
  assumes "previousPosition a \<noteq> k"
    and "\<forall>d\<in>set ds. in_window tstart tend d \<longrightarrow> pitchPosition w tstart tend d \<noteq> k"
  shows "\<exists>a'. loop w tstart tend a ds = Inr a' \<and> pitches_acc a' k = pitches_acc a k
           \<and> previousPosition a' \<noteq> k"
  using assms
proof (induction ds arbitrary: a)
  case Nil
  then show ?case by simp
next
  case (Cons d ds)
  obtain a1 where a1: "loop_body w tstart tend a d = Inr a1"
    "pitches_acc a1 k = pitches_acc a k"
    "previousPosition a1 = previousPosition a \<or>
       (in_window tstart tend d \<and> previousPosition a1 = pitchPosition w tstart tend d)"
    using loop_body_keeps_key [OF Cons.prems(1), of w tstart tend d] by blast
  have "previousPosition a1 \<noteq> k" using a1(3) Cons.prems by auto
  moreover have "\<forall>d\<in>set ds. in_window tstart tend d \<longrightarrow> pitchPosition w tstart tend d \<noteq> k"
    using Cons.prems(2) by simp
  ultimately obtain a' where "loop w tstart tend a1 ds = Inr a'"
    "pitches_acc a' k = pitches_acc a1 k" "previousPosition a' \<noteq> k"
    using Cons.IH by blast
  with a1 show ?case by simp
qed

lemma not_negative_sub: "js_ge t s \<Longrightarrow> not_negative (js_sub t s)"
  by (cases t; cases s)
     (auto simp: js_ge_def js_le_def js_seq_def js_sub_def not_negative_finite_result)

lemma not_negative_mul: "not_negative a \<Longrightarrow> not_negative b \<Longrightarrow> not_negative (js_mul a b)"
  by (cases a; cases b) (auto simp: inf_of_sign_def not_negative_finite_result)

lemma not_negative_div:
  "not_negative a \<Longrightarrow> not_negative b \<Longrightarrow> not_negative (js_div a b)"
  by (cases a; cases b) (auto simp: inf_of_sign_def not_negative_finite_result)

lemma not_negative_round: "not_negative a \<Longrightarrow> not_negative (Math_round a)"
  by (cases a) auto

lemma not_negative_ge: "js_ge w (Fin 0) \<Longrightarrow> not_negative w"
  by (cases w) (auto simp: js_ge_def js_le_def js_seq_def)

lemma js_le_trans: "js_le a b \<Longrightarrow> js_le b c \<Longrightarrow> js_le a c"
  by (cases a; cases b; cases c) (auto simp: js_le_def js_seq_def)

lemma column_not_negative:
  assumes "js_ge w (Fin 0)" and "in_window tstart tend d"
  shows "not_negative (pitchPosition w tstart tend d)"
proof -
  have "js_ge tend tstart"
    using assms(2) js_le_trans [of tstart "time d" tend] by (simp add: in_window_def js_ge_def)
  then have "not_negative (js_sub tend tstart)" by (rule not_negative_sub)
  moreover have "not_negative (js_mul w (js_sub (time d) tstart))"
    using assms by (simp add: not_negative_mul not_negative_sub not_negative_ge in_window_def)
  ultimately show ?thesis
    by (simp add: pitchPosition_def not_negative_round not_negative_div)
qed

lemma column_not_minus_one:
  assumes "js_ge w (Fin 0)" and "in_window tstart tend d"
  shows "pitchPosition w tstart tend d \<noteq> Fin (- 1)"
  using column_not_negative [OF assms] by auto

text \<open>
  C9. With a width that is not negative, the position of a data point in the window is
  never \<open>-1\<close>. So the first data point in the window differs from the initial
  \<open>previousPosition = -1\<close> and is flushed at once and alone: after it the map holds
  exactly its pitch at key \<open>-1\<close> and the buffer is empty; and since no later flush
  writes at \<open>-1\<close>, the map the loop ends with still holds that pitch at key \<open>-1\<close>.
\<close>

theorem first_sample_recorded_at_minus_one:
  assumes "js_ge w (Fin 0)"
    and "\<forall>x\<in>set pre. \<not> in_window tstart tend x"
    and "in_window tstart tend d"
  shows "js_sne (pitchPosition w tstart tend d) (Fin (- 1))
       \<and> (\<exists>a1. loop w tstart tend agg_init (pre @ [d]) = Inr a1
               \<and> pitches_acc a1 = [Fin (- 1) \<mapsto> pitch d] \<and> pitchesForAverage a1 = [])
       \<and> (\<exists>a. loop w tstart tend agg_init (pre @ d # post) = Inr a
               \<and> pitches_acc a (Fin (- 1)) = Some (pitch d))"
proof -
  have col: "pitchPosition w tstart tend d \<noteq> Fin (- 1)"
    using column_not_minus_one assms(1,3) by blast
  then have sne: "js_sne (pitchPosition w tstart tend d) (Fin (- 1))"
    by (simp add: js_sne_def js_seq_def)
  have skip: "\<exists>a0. loop w tstart tend a pre = Inr a0 \<and> pitches_acc a0 = pitches_acc a
          \<and> pitchesForAverage a0 = pitchesForAverage a
          \<and> previousPosition a0 = previousPosition a" for a
    using assms(2)
  proof (induction pre arbitrary: a)
    case Nil
    show ?case by simp
  next
    case (Cons x xs)
    then have "\<not> in_window tstart tend x" by simp
    then obtain a1 where a1: "loop_body w tstart tend a x = Inr a1"
      "pitches_acc a1 = pitches_acc a" "pitchesForAverage a1 = pitchesForAverage a"
      "previousPosition a1 = previousPosition a"
      using loop_body_out [of tstart tend x w a] by blast
    obtain a0 where "loop w tstart tend a1 xs = Inr a0" "pitches_acc a0 = pitches_acc a1"
      "pitchesForAverage a0 = pitchesForAverage a1" "previousPosition a0 = previousPosition a1"
      using Cons.IH [of a1] Cons.prems by auto
    with a1 show ?case by simp
  qed
  obtain a0 where a0: "loop w tstart tend agg_init pre = Inr a0" "pitches_acc a0 = Map.empty"
    "pitchesForAverage a0 = []" "previousPosition a0 = Fin (- 1)"
    using skip [of agg_init] by (auto simp: agg_init_def)
  obtain m a1 where a1: "avg (pitchesForAverage a0 @ [pitch d]) = Inr m"
    "loop_body w tstart tend a0 d = Inr a1"
    "pitches_acc a1 = (pitches_acc a0)(previousPosition a0 \<mapsto> m)"
    "pitchesForAverage a1 = []" "previousPosition a1 = pitchPosition w tstart tend d"
    using loop_body_change [of tstart tend d w a0] assms(3) sne a0(4) by auto
  have m: "m = pitch d" using a1(1) a0(3) by (simp add: avg_single)
  have first: "loop w tstart tend agg_init (pre @ [d]) = Inr a1"
    using a0(1) a1(2) by (simp add: loop_append)
  have "\<forall>x\<in>set post. in_window tstart tend x \<longrightarrow> pitchPosition w tstart tend x \<noteq> Fin (- 1)"
    using column_not_minus_one assms(1) by blast
  then obtain a where a: "loop w tstart tend a1 post = Inr a"
    "pitches_acc a (Fin (- 1)) = pitches_acc a1 (Fin (- 1))"
    using loop_keeps_key [of a1 "Fin (- 1)" post tstart tend w] a1(5) col by auto
  have last: "loop w tstart tend agg_init (pre @ d # post) = Inr a"
    using a0(1) a1(2) a(1) by (simp add: loop_append)
  show ?thesis using sne first last a(2) a1(3,4) a0(2,4) m by simp
qed

theorem first_sample_recorded_at_minus_one_witness:
  "js_ge (Fin 2) (Fin 0)
   \<and> \<not> in_window (Fin 0) (Fin 1) \<lparr>time = Fin (- 1), pitch = Fin 90\<rparr>
   \<and> in_window (Fin 0) (Fin 1) (hd spec_series)
   \<and> pitch (hd spec_series) = Fin 100
   \<and> (\<exists>a. loop (Fin 2) (Fin 0) (Fin 1) agg_init
             ([\<lparr>time = Fin (- 1), pitch = Fin 90\<rparr>] @ hd spec_series # tl spec_series) = Inr a
          \<and> pitches_acc a (Fin (- 1)) = Some (Fin 100))"
proof -
  have w: "js_ge (Fin 2) (Fin 0)" by (simp add: eval_defs)
  have p: "\<forall>x\<in>set [\<lparr>time = Fin (- 1), pitch = Fin 90\<rparr>]. \<not> in_window (Fin 0) (Fin 1) x"
    by (simp add: eval_defs)
  have d: "in_window (Fin 0) (Fin 1) (hd spec_series)"
    by (simp add: spec_series_def eval_defs)
  have v: "pitch (hd spec_series) = Fin 100" by (simp add: spec_series_def)
  show ?thesis using first_sample_recorded_at_minus_one [OF w p d, of "tl spec_series"] w p d v by simp
qed

subsection \<open>The last run\<close>



lemma calculatePitches_result:
  assumes "calculatePitches st = Inr st'"
  shows "\<exists>a. loop (width st) (pitchTimeStart st) (pitchTimeEnd st') agg_init (pitchArray st) = Inr a
           \<and> pitches st' =
               normalizePitches (fst (normalize_range (params st) a))
                 (snd (normalize_range (params st) a)) (pitches_acc a)"
  using assms
  by (auto simp: calculatePitches_def calculatePitchTimeEnd_def
      split: sum.splits option.splits if_splits prod.splits)



lemma trailing_calculatePitches:
  "calculatePitches (array_drawer trailing_series (Some ''segment'') (Fin 2)) =
     Inr ((array_drawer trailing_series (Some ''segment'') (Fin 2))
            \<lparr>pitches := normalizePitches (Fin 100) (Fin 130)
                 [Fin (- 1) \<mapsto> Fin 100, Fin 0 \<mapsto> Fin 120, Fin 1 \<mapsto> Fin 130],
             pitchTimeEnd := Fin 1\<rparr>)"
  by (simp add: trailing_series_def drawer_defs eval_defs)



subsection \<open>The range of the normalization\<close>

lemma loop_body_global:
  assumes "loop_body w tstart tend a d = Inr a'"
  shows "maxPitch a' = (if js_gt (pitch d) (maxPitch a) then pitch d else maxPitch a)
       \<and> minPitch a' = (if js_lt (pitch d) (minPitch a) then pitch d else minPitch a)"
  using assms
  by (auto simp: loop_body_def flush_def Let_def split: if_splits sum.splits)

lemma loop_global:
  assumes "loop w tstart tend a ds = Inr a'"
  shows "maxPitch a' = running_max (maxPitch a) (map pitch ds)
       \<and> minPitch a' = running_min (minPitch a) (map pitch ds)"
  using assms
proof (induction ds arbitrary: a)
  case Nil
  then show ?case by (simp add: running_max_def running_min_def)
next
  case (Cons d ds)
  obtain a1 where a1: "loop_body w tstart tend a d = Inr a1"
    using loop_body_total by blast
  with Cons.prems have "loop w tstart tend a1 ds = Inr a'" by simp
  then have "maxPitch a' = running_max (maxPitch a1) (map pitch ds)
       \<and> minPitch a' = running_min (minPitch a1) (map pitch ds)" by (rule Cons.IH)
  then show ?case using loop_body_global [OF a1]
    by (simp add: running_max_def running_min_def)
qed

lemma running_max_fin:
  "running_max (Fin m) (map Fin rs) = Fin (fold max rs m)"
  by (induction rs arbitrary: m) (auto simp: running_max_def js_gt_def max_def)

lemma running_min_fin:
  "running_min (Fin m) (map Fin rs) = Fin (fold min rs m)"
  by (induction rs arbitrary: m) (auto simp: running_min_def min_def)

lemma fold_max_seed:
  assumes "rs \<noteq> []" and "\<forall>r\<in>set rs. (m::real) \<le> r"
  shows "fold max rs m = Max (set rs)"
proof -
  have "fold max rs m = Max (set (m # rs))" by (rule Max.set_eq_fold [symmetric])
  also have "\<dots> = max m (Max (set rs))" using assms(1) by simp
  also have "\<dots> = Max (set rs)"
  proof -
    obtain r where r: "r \<in> set rs" using assms(1) by (cases rs) auto
    then have "m \<le> r" "r \<le> Max (set rs)" using assms(2) by simp_all
    then show ?thesis by simp
  qed
  finally show ?thesis .
qed

lemma fold_min_seed:
  assumes "rs \<noteq> []" and "\<forall>r\<in>set rs. r \<le> (m::real)"
  shows "fold min rs m = Min (set rs)"
proof -
  have "fold min rs m = Min (set (m # rs))" by (rule Min.set_eq_fold [symmetric])
  also have "\<dots> = min m (Min (set rs))" using assms(1) by simp
  also have "\<dots> = Min (set rs)" using assms by (simp add: min_absorb2 Min_le_iff)
  finally show ?thesis .
qed

lemma global_extrema_exact:
  assumes "ps \<noteq> []" and "\<forall>p\<in>set ps. \<exists>r. p = Fin r \<and> 0 \<le> r \<and> r \<le> 99999999999"
  shows "running_max (Fin 0) ps = Fin (Max (fin_val ` set ps))
       \<and> running_min (Fin 99999999999) ps = Fin (Min (fin_val ` set ps))"
proof -
  have ps: "ps = map Fin (map fin_val ps)"
    using assms(2) by (induction ps) auto
  have ne: "map fin_val ps \<noteq> []" using assms(1) by simp
  have lo: "\<forall>r\<in>set (map fin_val ps). 0 \<le> r" using assms(2) by auto
  have hi: "\<forall>r\<in>set (map fin_val ps). r \<le> 99999999999" using assms(2) by auto
  have "running_max (Fin 0) ps = Fin (fold max (map fin_val ps) 0)"
    using running_max_fin [of 0 "map fin_val ps"] ps by simp
  moreover have "running_min (Fin 99999999999) ps = Fin (fold min (map fin_val ps) 99999999999)"
    using running_min_fin [of 99999999999 "map fin_val ps"] ps by simp
  ultimately show ?thesis
    using fold_max_seed [OF ne lo] fold_min_seed [OF ne hi] by simp
qed

lemma running_max_Cons:
  "running_max seed (p # ps) = running_max (if js_gt p seed then p else seed) ps"
  "running_min seed (p # ps) = running_min (if js_lt p seed then p else seed) ps"
  "running_max seed [] = seed" "running_min seed [] = seed"
  by (simp_all add: running_max_def running_min_def)

lemma loop_segment:
  assumes "loop w tstart tend a ds = Inr a'"
  shows "maxSegmentPitch a' = running_max (maxSegmentPitch a) (flushed_means w tstart tend a ds)
       \<and> minSegmentPitch a' = running_min (minSegmentPitch a) (flushed_means w tstart tend a ds)
       \<and> ran (pitches_acc a') \<subseteq> ran (pitches_acc a) \<union> set (flushed_means w tstart tend a ds)"
  using assms
proof (induction ds arbitrary: a)
  case Nil
  then show ?case by (simp add: running_max_Cons)
next
  case (Cons d ds)
  obtain a1 where a1: "loop_body w tstart tend a d = Inr a1"
    using loop_body_total by blast
  with Cons.prems have rest: "loop w tstart tend a1 ds = Inr a'" by simp
  note IH = Cons.IH [OF rest]
  show ?case
  proof (cases "in_window tstart tend d
                  \<and> js_sne (pitchPosition w tstart tend d) (previousPosition a)")
    case True
    then obtain m where m: "avg (pitchesForAverage a @ [pitch d]) = Inr m"
      "pitches_acc a1 = (pitches_acc a)(previousPosition a \<mapsto> m)"
      "maxSegmentPitch a1 = (if js_gt m (maxSegmentPitch a) then m else maxSegmentPitch a)"
      "minSegmentPitch a1 = (if js_lt m (minSegmentPitch a) then m else minSegmentPitch a)"
      using loop_body_change [of tstart tend d w a] a1 by auto
    have fl: "flushed_means w tstart tend a (d # ds) = m # flushed_means w tstart tend a1 ds"
      using True a1 m(1) by simp
    have "ran (pitches_acc a1) \<subseteq> insert m (ran (pitches_acc a))"
      unfolding m(2) by (auto simp: ran_def)
    then show ?thesis using IH m(3,4) fl by (auto simp: running_max_Cons)
  next
    case False
    then have same: "pitches_acc a1 = pitches_acc a" "maxSegmentPitch a1 = maxSegmentPitch a"
      "minSegmentPitch a1 = minSegmentPitch a"
      using loop_body_out [of tstart tend d w a] loop_body_same [of tstart tend d w a] a1
      by auto
    have fl: "flushed_means w tstart tend a (d # ds) = flushed_means w tstart tend a1 ds"
      using False a1 by auto
    show ?thesis using IH same fl by simp
  qed
qed

lemma js_lt_trans: "js_lt a b \<Longrightarrow> js_lt b c \<Longrightarrow> js_lt a c"
  by (cases a; cases b; cases c) auto

lemma js_lt_irrefl: "\<not> js_lt a a"
  by (cases a) auto

lemma js_le_sne_lt: "js_le p c \<Longrightarrow> js_sne c p \<Longrightarrow> js_lt p c"
  by (auto simp: js_le_def js_sne_def js_seq_def)

lemma js_le_not_sne: "js_le p c \<Longrightarrow> \<not> js_sne c p \<Longrightarrow> c = p"
  by (auto simp: js_sne_def js_seq_def)

lemma loop_fresh_keys:
  assumes "loop w tstart tend a ds = Inr a'"
    and "sorted_wrt js_le (previousPosition a # in_window_positions w tstart tend ds)"
    and "\<forall>k\<in>dom (pitches_acc a). js_lt k (previousPosition a)"
  shows "ran (pitches_acc a') = ran (pitches_acc a) \<union> set (flushed_means w tstart tend a ds)"
  using assms
proof (induction ds arbitrary: a)
  case Nil
  then show ?case by simp
next
  case (Cons d ds)
  obtain a1 where a1: "loop_body w tstart tend a d = Inr a1"
    using loop_body_total by blast
  with Cons.prems(1) have rest: "loop w tstart tend a1 ds = Inr a'" by simp
  show ?case
  proof (cases "in_window tstart tend d")
    case False
    then have same: "pitches_acc a1 = pitches_acc a" "previousPosition a1 = previousPosition a"
      using loop_body_out [of tstart tend d w a] a1 by auto
    have fl: "flushed_means w tstart tend a (d # ds) = flushed_means w tstart tend a1 ds"
      using False a1 by simp
    have "sorted_wrt js_le (previousPosition a1 # in_window_positions w tstart tend ds)"
      using Cons.prems(2) False same by (simp add: in_window_positions_def)
    moreover have "\<forall>k\<in>dom (pitches_acc a1). js_lt k (previousPosition a1)"
      using Cons.prems(3) same by simp
    ultimately show ?thesis using Cons.IH [OF rest] same fl by simp
  next
    case True
    let ?c = "pitchPosition w tstart tend d"
    have pos: "in_window_positions w tstart tend (d # ds)
                 = ?c # in_window_positions w tstart tend ds"
      using True by (simp add: in_window_positions_def)
    have le: "js_le (previousPosition a) ?c"
      and tail: "sorted_wrt js_le (?c # in_window_positions w tstart tend ds)"
      using Cons.prems(2) pos by simp_all
    show ?thesis
    proof (cases "js_sne ?c (previousPosition a)")
      case False
      then have same: "pitches_acc a1 = pitches_acc a" "previousPosition a1 = ?c"
        using loop_body_same [of tstart tend d w a] True a1 by auto
      have eq: "?c = previousPosition a" using le False by (rule js_le_not_sne)
      have fl: "flushed_means w tstart tend a (d # ds) = flushed_means w tstart tend a1 ds"
        using False a1 by simp
      have "sorted_wrt js_le (previousPosition a1 # in_window_positions w tstart tend ds)"
        using tail same by simp
      moreover have "\<forall>k\<in>dom (pitches_acc a1). js_lt k (previousPosition a1)"
        using Cons.prems(3) same eq by simp
      ultimately show ?thesis using Cons.IH [OF rest] same fl by simp
    next
      case sne: True
      obtain m where m: "avg (pitchesForAverage a @ [pitch d]) = Inr m"
        "pitches_acc a1 = (pitches_acc a)(previousPosition a \<mapsto> m)"
        "previousPosition a1 = ?c"
        using loop_body_change [OF True sne] a1 by auto
      have lt: "js_lt (previousPosition a) ?c" using le sne by (rule js_le_sne_lt)
      have fresh: "pitches_acc a (previousPosition a) = None"
      proof (rule ccontr)
        assume "pitches_acc a (previousPosition a) \<noteq> None"
        then have "previousPosition a \<in> dom (pitches_acc a)" by auto
        then have "js_lt (previousPosition a) (previousPosition a)"
          using Cons.prems(3) by blast
        then show False by (simp add: js_lt_irrefl)
      qed
      have ran1: "ran (pitches_acc a1) = insert m (ran (pitches_acc a))"
        unfolding m(2) using fresh by simp
      have fl: "flushed_means w tstart tend a (d # ds) = m # flushed_means w tstart tend a1 ds"
        using True sne a1 m(1) by simp
      have "sorted_wrt js_le (previousPosition a1 # in_window_positions w tstart tend ds)"
        using tail m(3) by simp
      moreover have "\<forall>k\<in>dom (pitches_acc a1). js_lt k (previousPosition a1)"
      proof
        fix k assume "k \<in> dom (pitches_acc a1)"
        then have "k = previousPosition a \<or> k \<in> dom (pitches_acc a)"
          unfolding m(2) by auto
        then show "js_lt k (previousPosition a1)"
          using lt Cons.prems(3) m(3) js_lt_trans by metis
      qed
      ultimately show ?thesis using Cons.IH [OF rest] ran1 fl by simp
    qed
  qed
qed

lemma segment_extrema_exact:
  assumes "loop w tstart tend agg_init ds = Inr a"
    and "sorted_wrt js_le (Fin (- 1) # in_window_positions w tstart tend ds)"
    and "pitches_acc a \<noteq> Map.empty"
    and "\<forall>v\<in>ran (pitches_acc a). \<exists>r. v = Fin r \<and> 0 \<le> r \<and> r \<le> 99999999999"
  shows "minSegmentPitch a = Fin (Min (fin_val ` ran (pitches_acc a)))
       \<and> maxSegmentPitch a = Fin (Max (fin_val ` ran (pitches_acc a)))"
proof -
  let ?fl = "flushed_means w tstart tend agg_init ds"
  have ran: "ran (pitches_acc a) = set ?fl"
    using loop_fresh_keys [OF assms(1)] assms(2) by (simp add: agg_init_def)
  have seg: "maxSegmentPitch a = running_max (Fin 0) ?fl"
    "minSegmentPitch a = running_min (Fin 99999999999) ?fl"
    using loop_segment [OF assms(1)] by (simp_all add: agg_init_def)
  have "ran (pitches_acc a) \<noteq> {}"
    using assms(3) by (auto simp: ran_def fun_eq_iff)
  then have ne: "?fl \<noteq> []" using ran by auto
  have rng: "\<forall>p\<in>set ?fl. \<exists>r. p = Fin r \<and> 0 \<le> r \<and> r \<le> 99999999999"
    using assms(4) ran by simp
  show ?thesis using global_extrema_exact [OF ne rng] seg ran by simp
qed

text \<open>
  C5 (as amended). \<open>calculatePitches\<close> normalizes the map of the loop with a range chosen
  by \<open>pitchNormalizeTo\<close>.
  For \<open>whole\<close> the range is the running minimum and maximum of the pitches of all data
  points, started at 99999999999 and 0: the least and the greatest pitch of the series
  when the series is not empty and its pitches are finite numbers between 0 and
  99999999999.
  For \<open>values\<close>, which is also what the parameter is when the caller does not give it,
  the range is \<open>pitchMin\<close> and \<open>pitchMax\<close> (70 and 200 unless given).
  For any other value the range is the running minimum and maximum, started at
  99999999999 and 0, of the averages the loop flushed, among which every value of the map
  is: the least and the greatest value recorded in the map when the positions of the data
  points in the window never decrease along the series (and are not below \<open>-1\<close>), the
  map is not empty and its values are finite numbers between 0 and 99999999999.
\<close>

theorem normalization_policy:
  assumes "calculatePitches st = Inr st'"
  shows "\<exists>a lo hi.
       loop (width st) (pitchTimeStart st) (pitchTimeEnd st') agg_init (pitchArray st) = Inr a
     \<and> pitches st' = normalizePitches lo hi (pitches_acc a)
     \<and> (p_pitchNormalizeTo (params st) = ''whole'' \<longrightarrow>
          lo = running_min (Fin 99999999999) (map pitch (pitchArray st))
          \<and> hi = running_max (Fin 0) (map pitch (pitchArray st))
          \<and> (pitchArray st \<noteq> []
               \<and> (\<forall>d\<in>set (pitchArray st). \<exists>r. pitch d = Fin r \<and> 0 \<le> r \<and> r \<le> 99999999999)
              \<longrightarrow> lo = Fin (Min ((\<lambda>d. fin_val (pitch d)) ` set (pitchArray st)))
                  \<and> hi = Fin (Max ((\<lambda>d. fin_val (pitch d)) ` set (pitchArray st)))))
     \<and> (p_pitchNormalizeTo (params st) = ''values'' \<longrightarrow>
          lo = p_pitchMin (params st) \<and> hi = p_pitchMax (params st))
     \<and> (p_pitchNormalizeTo (params st) \<noteq> ''whole''
          \<and> p_pitchNormalizeTo (params st) \<noteq> ''values'' \<longrightarrow>
          lo = running_min (Fin 99999999999)
                 (flushed_means (width st) (pitchTimeStart st) (pitchTimeEnd st') agg_init
                    (pitchArray st))
          \<and> hi = running_max (Fin 0)
                 (flushed_means (width st) (pitchTimeStart st) (pitchTimeEnd st') agg_init
                    (pitchArray st))
          \<and> ran (pitches_acc a)
               \<subseteq> set (flushed_means (width st) (pitchTimeStart st) (pitchTimeEnd st') agg_init
                        (pitchArray st))
          \<and> (sorted_wrt js_le
                 (Fin (- 1) # in_window_positions (width st) (pitchTimeStart st)
                                (pitchTimeEnd st') (pitchArray st))
               \<and> pitches_acc a \<noteq> Map.empty
               \<and> (\<forall>v\<in>ran (pitches_acc a). \<exists>r. v = Fin r \<and> 0 \<le> r \<and> r \<le> 99999999999)
              \<longrightarrow> lo = Fin (Min (fin_val ` ran (pitches_acc a)))
                  \<and> hi = Fin (Max (fin_val ` ran (pitches_acc a)))))
     \<and> p_pitchNormalizeTo (util_extend (u\<lparr>u_pitchNormalizeTo := None\<rparr>)) = ''values''
     \<and> p_pitchMin (util_extend (u\<lparr>u_pitchMin := None\<rparr>)) = Fin 70
     \<and> p_pitchMax (util_extend (u\<lparr>u_pitchMax := None\<rparr>)) = Fin 200"
proof -
  let ?w = "width st" and ?s = "pitchTimeStart st" and ?e = "pitchTimeEnd st'"
    and ?arr = "pitchArray st"
  obtain a where a: "loop ?w ?s ?e agg_init ?arr = Inr a"
    "pitches st' = normalizePitches (fst (normalize_range (params st) a))
                 (snd (normalize_range (params st) a)) (pitches_acc a)"
    using calculatePitches_result [OF assms] by blast
  let ?lo = "fst (normalize_range (params st) a)" and ?hi = "snd (normalize_range (params st) a)"
  have glob: "maxPitch a = running_max (Fin 0) (map pitch ?arr)"
    "minPitch a = running_min (Fin 99999999999) (map pitch ?arr)"
    using loop_global [OF a(1)] by (simp_all add: agg_init_def)
  have seg: "maxSegmentPitch a = running_max (Fin 0) (flushed_means ?w ?s ?e agg_init ?arr)"
    "minSegmentPitch a = running_min (Fin 99999999999) (flushed_means ?w ?s ?e agg_init ?arr)"
    "ran (pitches_acc a) \<subseteq> set (flushed_means ?w ?s ?e agg_init ?arr)"
    using loop_segment [OF a(1)] by (simp_all add: agg_init_def)
  have gexact: "?arr \<noteq> []
               \<and> (\<forall>d\<in>set ?arr. \<exists>r. pitch d = Fin r \<and> 0 \<le> r \<and> r \<le> 99999999999)
              \<longrightarrow> minPitch a = Fin (Min ((\<lambda>d. fin_val (pitch d)) ` set ?arr))
                  \<and> maxPitch a = Fin (Max ((\<lambda>d. fin_val (pitch d)) ` set ?arr))"
  proof
    assume h: "?arr \<noteq> []
               \<and> (\<forall>d\<in>set ?arr. \<exists>r. pitch d = Fin r \<and> 0 \<le> r \<and> r \<le> 99999999999)"
    then have ne: "map pitch ?arr \<noteq> []"
      and rng: "\<forall>p\<in>set (map pitch ?arr). \<exists>r. p = Fin r \<and> 0 \<le> r \<and> r \<le> 99999999999"
      by auto
    show "minPitch a = Fin (Min ((\<lambda>d. fin_val (pitch d)) ` set ?arr))
                  \<and> maxPitch a = Fin (Max ((\<lambda>d. fin_val (pitch d)) ` set ?arr))"
      using global_extrema_exact [OF ne rng] glob by (simp add: image_image)
  qed
  have sexact: "sorted_wrt js_le (Fin (- 1) # in_window_positions ?w ?s ?e ?arr)
               \<and> pitches_acc a \<noteq> Map.empty
               \<and> (\<forall>v\<in>ran (pitches_acc a). \<exists>r. v = Fin r \<and> 0 \<le> r \<and> r \<le> 99999999999)
              \<longrightarrow> minSegmentPitch a = Fin (Min (fin_val ` ran (pitches_acc a)))
                  \<and> maxSegmentPitch a = Fin (Max (fin_val ` ran (pitches_acc a)))"
    using segment_extrema_exact [OF a(1)] by blast
  have dflt: "p_pitchNormalizeTo (util_extend (u\<lparr>u_pitchNormalizeTo := None\<rparr>)) = ''values''"
     "p_pitchMin (util_extend (u\<lparr>u_pitchMin := None\<rparr>)) = Fin 70"
     "p_pitchMax (util_extend (u\<lparr>u_pitchMax := None\<rparr>)) = Fin 200"
    by (simp_all add: util_extend_def)
  have whole: "p_pitchNormalizeTo (params st) = ''whole'' \<longrightarrow>
          ?lo = running_min (Fin 99999999999) (map pitch ?arr)
          \<and> ?hi = running_max (Fin 0) (map pitch ?arr)
          \<and> (?arr \<noteq> []
               \<and> (\<forall>d\<in>set ?arr. \<exists>r. pitch d = Fin r \<and> 0 \<le> r \<and> r \<le> 99999999999)
              \<longrightarrow> ?lo = Fin (Min ((\<lambda>d. fin_val (pitch d)) ` set ?arr))
                  \<and> ?hi = Fin (Max ((\<lambda>d. fin_val (pitch d)) ` set ?arr)))"
    using glob gexact by (simp add: normalize_range_def)
  have vals: "p_pitchNormalizeTo (params st) = ''values'' \<longrightarrow>
          ?lo = p_pitchMin (params st) \<and> ?hi = p_pitchMax (params st)"
    by (simp add: normalize_range_def)
  have other: "p_pitchNormalizeTo (params st) \<noteq> ''whole''
          \<and> p_pitchNormalizeTo (params st) \<noteq> ''values'' \<longrightarrow>
          ?lo = running_min (Fin 99999999999) (flushed_means ?w ?s ?e agg_init ?arr)
          \<and> ?hi = running_max (Fin 0) (flushed_means ?w ?s ?e agg_init ?arr)
          \<and> ran (pitches_acc a) \<subseteq> set (flushed_means ?w ?s ?e agg_init ?arr)
          \<and> (sorted_wrt js_le (Fin (- 1) # in_window_positions ?w ?s ?e ?arr)
               \<and> pitches_acc a \<noteq> Map.empty
               \<and> (\<forall>v\<in>ran (pitches_acc a). \<exists>r. v = Fin r \<and> 0 \<le> r \<and> r \<le> 99999999999)
              \<longrightarrow> ?lo = Fin (Min (fin_val ` ran (pitches_acc a)))
                  \<and> ?hi = Fin (Max (fin_val ` ran (pitches_acc a))))"
    using seg sexact by (simp add: normalize_range_def)
  show ?thesis
    apply (rule exI [of _ a], rule exI [of _ ?lo], rule exI [of _ ?hi])
    using a whole vals other dflt by blast
qed

theorem normalization_policy_witness:
  "calculatePitches (array_drawer trailing_series (Some ''segment'') (Fin 2)) =
     Inr ((array_drawer trailing_series (Some ''segment'') (Fin 2))
            \<lparr>pitches := normalizePitches (Fin 100) (Fin 130)
                 [Fin (- 1) \<mapsto> Fin 100, Fin 0 \<mapsto> Fin 120, Fin 1 \<mapsto> Fin 130],
             pitchTimeEnd := Fin 1\<rparr>)
   \<and> in_window_positions (Fin 2) (Fin 0) (Fin 1) trailing_series = [Fin 0, Fin 1, Fin 2, Fin 2]
   \<and> sorted_wrt js_le [Fin (- 1), Fin 0, Fin 1, Fin 2, Fin 2]
   \<and> flushed_means (Fin 2) (Fin 0) (Fin 1) agg_init trailing_series = [Fin 100, Fin 120, Fin 130]
   \<and> running_min (Fin 99999999999) [Fin 100, Fin 120, Fin 130] = Fin 100
   \<and> running_max (Fin 0) [Fin 100, Fin 120, Fin 130] = Fin 130"
proof -
  have fm: "flushed_means (Fin 2) (Fin 0) (Fin 1) agg_init trailing_series
              = [Fin 100, Fin 120, Fin 130]"
    by (simp add: trailing_series_def eval_defs)
  have rm: "running_min (Fin 99999999999) [Fin 100, Fin 120, Fin 130] = Fin 100"
    "running_max (Fin 0) [Fin 100, Fin 120, Fin 130] = Fin 130"
    by (simp_all add: running_max_Cons js_gt_def)
  have ps: "in_window_positions (Fin 2) (Fin 0) (Fin 1) trailing_series
              = [Fin 0, Fin 1, Fin 2, Fin 2]"
    by (simp add: in_window_positions_def trailing_series_def eval_defs)
  have so: "sorted_wrt js_le [Fin (- 1), Fin 0, Fin 1, Fin 2, Fin 2]"
    by (simp add: js_le_def js_seq_def)
  show ?thesis
    using normalization_policy [OF trailing_calculatePitches] trailing_calculatePitches fm rm ps so by simp
qed

text \<open>
  C5 as stated fails in three ways. For the default: with no \<open>pitchNormalizeTo\<close> given,
  the series of the specification at width 2 is normalized with 70 and 200 (the entry at
  0 becomes \<open>5/13\<close>), not with the segment extrema 100 and 140 (which would give
  \<open>1/2\<close>). For pitches outside the seeds: on the pitches \<open>-5\<close> and \<open>-3\<close> the maximum of
  \<open>whole\<close> and that of the segment are both the seed 0, not \<open>-3\<close>; on the empty series
  the extrema are the seeds. For a series not sorted by time: the average 190 recorded
  at column 0 is overwritten by 120 when column 0 is left a second time, so the segment
  maximum 190 is no value of the map.
\<close>

theorem policy_range_differs:
  "u_pitchNormalizeTo (array_params spec_series) = None
   \<and> (case calculatePitches (array_drawer spec_series None (Fin 2)) of
         Inl e \<Rightarrow> False | Inr st' \<Rightarrow> pitches st' (Fin 0) = Some (Fin (5 / 13)))
   \<and> (case loop (Fin 2) (Fin 0) (Fin 1) agg_init spec_series of
         Inl e \<Rightarrow> False
       | Inr a \<Rightarrow> minSegmentPitch a = Fin 100 \<and> maxSegmentPitch a = Fin 140
           \<and> normalizePitches (minSegmentPitch a) (maxSegmentPitch a) (pitches_acc a) (Fin 0)
               = Some (Fin (1 / 2)))
   \<and> (case loop (Fin 2) (Fin 0) (Fin 1) agg_init negative_series of
         Inl e \<Rightarrow> False
       | Inr a \<Rightarrow> maxPitch a = Fin 0 \<and> maxSegmentPitch a = Fin 0
           \<and> dom (pitches_acc a) = {Fin (- 1), Fin 0}
           \<and> pitches_acc a (Fin (- 1)) = Some (Fin (- 5))
           \<and> pitches_acc a (Fin 0) = Some (Fin (- 3)))
   \<and> (case loop (Fin 2) (Fin 0) (Fin 1) agg_init unsorted_series of
         Inl e \<Rightarrow> False
       | Inr a \<Rightarrow> maxSegmentPitch a = Fin 190
           \<and> dom (pitches_acc a) = {Fin (- 1), Fin 0, Fin 2}
           \<and> pitches_acc a (Fin (- 1)) = Some (Fin 100)
           \<and> pitches_acc a (Fin 0) = Some (Fin 120)
           \<and> pitches_acc a (Fin 2) = Some (Fin 110))
   \<and> (case loop (Fin 2) (Fin 0) (Fin 1) agg_init [] of
         Inl e \<Rightarrow> False
       | Inr a \<Rightarrow> minPitch a = Fin 99999999999 \<and> maxPitch a = Fin 0
           \<and> minSegmentPitch a = Fin 99999999999 \<and> maxSegmentPitch a = Fin 0)"
proof -
  have dflt: "u_pitchNormalizeTo (array_params spec_series) = None
   \<and> (case calculatePitches (array_drawer spec_series None (Fin 2)) of
         Inl e \<Rightarrow> False | Inr st' \<Rightarrow> pitches st' (Fin 0) = Some (Fin (5 / 13)))"
    by (simp add: spec_series_def drawer_defs eval_defs normalizePitches_def normalize1_def)
  have segm: "(case loop (Fin 2) (Fin 0) (Fin 1) agg_init spec_series of
         Inl e \<Rightarrow> False
       | Inr a \<Rightarrow> minSegmentPitch a = Fin 100 \<and> maxSegmentPitch a = Fin 140
           \<and> normalizePitches (minSegmentPitch a) (maxSegmentPitch a) (pitches_acc a) (Fin 0)
               = Some (Fin (1 / 2)))"
    by (simp add: spec_series_def eval_defs normalizePitches_def normalize1_def)
  have neg: "(case loop (Fin 2) (Fin 0) (Fin 1) agg_init negative_series of
         Inl e \<Rightarrow> False
       | Inr a \<Rightarrow> maxPitch a = Fin 0 \<and> maxSegmentPitch a = Fin 0
           \<and> dom (pitches_acc a) = {Fin (- 1), Fin 0}
           \<and> pitches_acc a (Fin (- 1)) = Some (Fin (- 5))
           \<and> pitches_acc a (Fin 0) = Some (Fin (- 3)))"
    by (auto simp: negative_series_def eval_defs)
  have uns: "(case loop (Fin 2) (Fin 0) (Fin 1) agg_init unsorted_series of
         Inl e \<Rightarrow> False
       | Inr a \<Rightarrow> maxSegmentPitch a = Fin 190
           \<and> dom (pitches_acc a) = {Fin (- 1), Fin 0, Fin 2}
           \<and> pitches_acc a (Fin (- 1)) = Some (Fin 100)
           \<and> pitches_acc a (Fin 0) = Some (Fin 120)
           \<and> pitches_acc a (Fin 2) = Some (Fin 110))"
    by (auto simp: unsorted_series_def eval_defs)
  have emp: "(case loop (Fin 2) (Fin 0) (Fin 1) agg_init [] of
         Inl e \<Rightarrow> False
       | Inr a \<Rightarrow> minPitch a = Fin 99999999999 \<and> maxPitch a = Fin 0
           \<and> minSegmentPitch a = Fin 99999999999 \<and> maxSegmentPitch a = Fin 0)"
    by (simp add: agg_init_def)
  from dflt segm neg uns emp show ?thesis by blast
qed

end
